theory Spec2Isabelle
  imports Main "HOL-Library.Sublist"
begin

section \<open>Values\<close>

text \<open>
  The values a parsed JSON body can hold in a field, with \<open>Undefined\<close> for a field that
  is absent. A number of a parsed body is a double; the model holds the integral ones,
  each as the integer it equals. Fractional numbers, nested objects and arrays are
  outside the model.
\<close>

datatype jsval = Undefined | Null | Bool bool | Num int | Str string

text \<open>
  The result of \<^verbatim>\<open>parseInt\<close>: \<^verbatim>\<open>NaN\<close>, or a double, held as the integer it equals.
  \<^verbatim>\<open>Infinity\<close> is held as \<open>2 ^ 1024\<close> and \<^verbatim>\<open>-Infinity\<close> as its negative: no double has
  these values, and like the infinities each is equal to itself alone.
\<close>

datatype jsnum = NaN | Fin int

text \<open>The operator \<^verbatim>\<open>!v\<close>.\<close>

fun falsy :: "jsval \<Rightarrow> bool" where
  "falsy Undefined = True"
| "falsy Null = True"
| "falsy (Bool b) = (\<not> b)"
| "falsy (Num n) = (n = 0)"
| "falsy (Str s) = (s = [])"

text \<open>
  What a cell of a table, or a bound statement parameter, holds: NULL, a number (held as
  the integer it equals, whether the engine keeps it as INTEGER or as REAL, and an
  infinity as above), or a text.
  The driver binds a boolean as the integer 1 or 0, \<^verbatim>\<open>null\<close> as NULL, and the number
  \<^verbatim>\<open>NaN\<close> as NULL.
\<close>

datatype sqlval = SqlNull | SqlInt int | SqlText string

fun bind_value :: "jsval \<Rightarrow> sqlval" where
  "bind_value Undefined = SqlNull"
| "bind_value Null = SqlNull"
| "bind_value (Bool b) = SqlInt (if b then 1 else 0)"
| "bind_value (Num n) = SqlInt n"
| "bind_value (Str s) = SqlText s"

fun bind_number :: "jsnum \<Rightarrow> sqlval" where
  "bind_number NaN = SqlNull"
| "bind_number (Fin n) = SqlInt n"

text \<open>The SQL comparison \<^verbatim>\<open>a = b\<close> holding: it does not hold when either side is NULL.\<close>

definition sql_eq :: "sqlval \<Rightarrow> sqlval \<Rightarrow> bool" where
  "sql_eq a b = (a \<noteq> SqlNull \<and> b \<noteq> SqlNull \<and> a = b)"

text \<open>
  The storage engine reads a text operand as an integer where an INTEGER column meets it
  (the text of \<^verbatim>\<open>req.params.id\<close> in \<^verbatim>\<open>WHERE id = ?\<close>, a text \<^verbatim>\<open>id\<close> in an INSERT).
  The engine is not part of the repository: its reading is a parameter of the model,
  \<open>None\<close> where the text equals no integer.
\<close>

type_synonym affinity = "string \<Rightarrow> int option"

text \<open>The integers of 32 bits, which the driver binds as INTEGER, and those of 64 bits.\<close>

definition int32 :: "int \<Rightarrow> bool" where
  "int32 n = (- (2 ^ 31) \<le> n \<and> n < 2 ^ 31)"

definition int64 :: "int \<Rightarrow> bool" where
  "int64 n = (- (2 ^ 63) \<le> n \<and> n < 2 ^ 63)"

function digits_of :: "nat \<Rightarrow> string" where
  "digits_of n =
     (if n < 10 then [''0123456789'' ! n]
      else digits_of (n div 10) @ [''0123456789'' ! (n mod 10)])"
  by auto
termination
  by (relation "measure id") auto

definition decimal_text :: "int \<Rightarrow> string" where
  "decimal_text n = (if n < 0 then CHR ''-'' # digits_of (nat (- n)) else digits_of (nat n))"

text \<open>
  What a TEXT column (\<^verbatim>\<open>title\<close>, \<^verbatim>\<open>content\<close>) keeps of a bound value: an integer is
  kept as its decimal text. A number beyond 32 bits is bound as a double and kept as
  the text the engine prints a real number as; the model does not spell that text and
  holds the number.
\<close>

fun text_cell :: "sqlval \<Rightarrow> sqlval" where
  "text_cell (SqlInt n) = (if int32 n then SqlText (decimal_text n) else SqlInt n)"
| "text_cell v = v"

text \<open>
  What a DATETIME or BOOLEAN column keeps of a bound value: a text that the engine reads
  as an integer of 64 bits is kept as that integer. Of any other text the engine keeps
  the real number it spells, if it spells one, and else the text; the model does not
  tell the two apart and holds the text.
\<close>

fun numeric_cell :: "affinity \<Rightarrow> sqlval \<Rightarrow> sqlval" where
  "numeric_cell as_integer (SqlText s) =
     (case as_integer s of
        None \<Rightarrow> SqlText s
      | Some n \<Rightarrow> if int64 n then SqlInt n else SqlText s)"
| "numeric_cell as_integer v = v"

section \<open>Tables\<close>

text \<open>
  \<^verbatim>\<open>CREATE TABLE users (id INTEGER PRIMARY KEY, username TEXT UNIQUE, password TEXT)\<close>
\<close>

record user_row =
  users_id :: int
  username :: sqlval
  password :: sqlval

text \<open>
  \<^verbatim>\<open>CREATE TABLE notes (id INTEGER PRIMARY KEY, title TEXT NOT NULL, content TEXT NOT NULL,
  created_at DATETIME NOT NULL, updated_at DATETIME NOT NULL, deleted_at DATETIME,
  is_hidden BOOLEAN NOT NULL, user_id INTEGER, FOREIGN KEY ...)\<close>
  The foreign key is declared but the connection never enables its enforcement.
\<close>

record note_row =
  notes_id :: int
  title :: sqlval
  content :: sqlval
  created_at :: sqlval
  updated_at :: sqlval
  deleted_at :: sqlval
  is_hidden :: sqlval
  user_id :: sqlval

text \<open>Both tables are kept in the order of their keys, the order a scan returns.\<close>

record database =
  users_tbl :: "user_row list"
  notes_tbl :: "note_row list"

text \<open>
  A statement fails only by a constraint of the schema. Failures of the storage itself
  (a file that cannot be opened, a full disk), which the handlers answer with 500, are
  not modelled.
\<close>

datatype sql_error = UniqueFailed | NotNullFailed | DatatypeMismatch | Full

text \<open>The key given to a row inserted with no key: one more than the largest in use.\<close>

definition next_rowid :: "int list \<Rightarrow> int" where
  "next_rowid ks = (if ks = [] then 1 else Max (set ks) + 1)"

text \<open>
  \<^verbatim>\<open>INSERT INTO users (username) VALUES (?)\<close>, returning \<^verbatim>\<open>lastID\<close>. The usernames
  are texts; of a username that is a number or a boolean the model holds the value as
  bound, where the engine keeps its text.
\<close>

definition insert_users :: "sqlval \<Rightarrow> user_row list \<Rightarrow> sql_error + (int \<times> user_row list)" where
  "insert_users name us =
     (if \<exists>r \<in> set us. sql_eq (username r) name then Inl UniqueFailed
      else let k = next_rowid (map users_id us)
           in Inr (k, insort_key users_id
                        \<lparr>users_id = k, username = name, password = SqlNull\<rparr> us))"

text \<open>\<^verbatim>\<open>SELECT * FROM users WHERE username = ?\<close> through \<^verbatim>\<open>db.get\<close>: the first row, if any.\<close>

definition select_users :: "sqlval \<Rightarrow> user_row list \<Rightarrow> user_row option" where
  "select_users name us = find (\<lambda>r. sql_eq (username r) name) us"

text \<open>\<^verbatim>\<open>SELECT * FROM notes WHERE user_id = ? AND deleted_at IS NULL\<close>\<close>

definition select_notes :: "sqlval \<Rightarrow> note_row list \<Rightarrow> note_row list" where
  "select_notes uid ns = filter (\<lambda>r. sql_eq (user_id r) uid \<and> deleted_at r = SqlNull) ns"

text \<open>
  The key of an inserted note: assigned when NULL, read from a text by the engine, and
  refused when it is no integer of 64 bits. When the largest key is the largest integer,
  the engine looks for an unused key at random and fails when it finds none; the model
  takes the failure.
\<close>

fun rowid_of :: "affinity \<Rightarrow> sqlval \<Rightarrow> note_row list \<Rightarrow> sql_error + int" where
  "rowid_of as_integer SqlNull ns =
     (if int64 (next_rowid (map notes_id ns)) then Inr (next_rowid (map notes_id ns))
      else Inl Full)"
| "rowid_of as_integer (SqlInt n) ns = (if int64 n then Inr n else Inl DatatypeMismatch)"
| "rowid_of as_integer (SqlText s) ns =
     (case as_integer s of
        None \<Rightarrow> Inl DatatypeMismatch
      | Some n \<Rightarrow> if int64 n then Inr n else Inl DatatypeMismatch)"

text \<open>
  \<^verbatim>\<open>INSERT INTO notes (id, title, content, created_at, updated_at, is_hidden, user_id)
  VALUES (?, ?, ?, ?, ?, ?, ?)\<close>, returning \<^verbatim>\<open>lastID\<close>, for the cells that the columns
  keep of the bound values. Every failure leaves the table as it was, and the handler
  answers each of them alike.
\<close>

definition insert_notes ::
  "affinity \<Rightarrow> sqlval \<Rightarrow> sqlval \<Rightarrow> sqlval \<Rightarrow> sqlval \<Rightarrow> sqlval \<Rightarrow> sqlval \<Rightarrow> sqlval \<Rightarrow>
   note_row list \<Rightarrow> sql_error + (int \<times> note_row list)" where
  "insert_notes as_integer idv titlev contentv createdv updatedv hiddenv uidv ns =
     (case rowid_of as_integer idv ns of
        Inl err \<Rightarrow> Inl err
      | Inr k \<Rightarrow>
          if titlev = SqlNull \<or> contentv = SqlNull \<or> createdv = SqlNull
             \<or> updatedv = SqlNull \<or> hiddenv = SqlNull
          then Inl NotNullFailed
          else if k \<in> notes_id ` set ns then Inl UniqueFailed
          else Inr (k, insort_key notes_id
                        \<lparr>notes_id = k, title = titlev, content = contentv,
                         created_at = createdv, updated_at = updatedv,
                         deleted_at = SqlNull, is_hidden = hiddenv, user_id = uidv\<rparr> ns))"

text \<open>The columns an UPDATE of this program assigns.\<close>

datatype column = Title | Content | Is_hidden | Updated_at | Deleted_at

fun not_null :: "column \<Rightarrow> bool" where
  "not_null Deleted_at = False"
| "not_null c = True"

fun set_column :: "column \<times> sqlval \<Rightarrow> note_row \<Rightarrow> note_row" where
  "set_column (Title, v) r = r\<lparr>title := v\<rparr>"
| "set_column (Content, v) r = r\<lparr>content := v\<rparr>"
| "set_column (Is_hidden, v) r = r\<lparr>is_hidden := v\<rparr>"
| "set_column (Updated_at, v) r = r\<lparr>updated_at := v\<rparr>"
| "set_column (Deleted_at, v) r = r\<lparr>deleted_at := v\<rparr>"

text \<open>
  \<^verbatim>\<open>UPDATE notes SET c1 = ?, ... WHERE ...\<close>, returning \<^verbatim>\<open>changes\<close>, the number of rows
  the WHERE clause selected. A NULL assigned to a NOT NULL column of a selected row
  fails the statement, and no row changes.
\<close>

definition update_notes ::
  "(column \<times> sqlval) list \<Rightarrow> (note_row \<Rightarrow> bool) \<Rightarrow> note_row list \<Rightarrow>
   sql_error + (nat \<times> note_row list)" where
  "update_notes fs wh ns =
     (if (\<exists>r \<in> set ns. wh r) \<and> (\<exists>(c, v) \<in> set fs. not_null c \<and> v = SqlNull)
      then Inl NotNullFailed
      else Inr (length (filter wh ns),
                map (\<lambda>r. if wh r then fold set_column fs r else r) ns))"

section \<open>Caller identity\<close>

definition is_digit :: "char \<Rightarrow> bool" where
  "is_digit c = (48 \<le> (of_char c :: nat) \<and> (of_char c :: nat) \<le> 57)"

text \<open>The white space \<^verbatim>\<open>parseInt\<close> skips, among the characters a header value can hold.\<close>

definition is_space :: "char \<Rightarrow> bool" where
  "is_space c = ((of_char c :: nat) \<in> {9, 10, 11, 12, 13, 32, 160})"

definition digits_value :: "string \<Rightarrow> int" where
  "digits_value ds = foldl (\<lambda>a c. 10 * a + (int (of_char c) - 48)) 0 ds"

text \<open>
  The double nearest to a natural number, ties to the even significand of 53 bits, and
  \<open>2 ^ 1024\<close>, for \<^verbatim>\<open>Infinity\<close>, from the middle between the largest double and
  \<open>2 ^ 1024\<close> on. \<open>exponent_of n\<close> is the number of low bits that do not fit.
\<close>

function exponent_of :: "int \<Rightarrow> nat" where
  "exponent_of n = (if n < 2 ^ 53 then 0 else Suc (exponent_of (n div 2)))"
  by auto
termination
  by (relation "measure nat") auto

definition to_double :: "int \<Rightarrow> int" where
  "to_double n =
     (let e = exponent_of n;
          q = n div 2 ^ e;
          r = n mod 2 ^ e;
          m = (if 2 ^ e < 2 * r \<or> (2 * r = 2 ^ e \<and> odd q) then q + 1 else q) * 2 ^ e
      in if 2 ^ 1024 \<le> m then 2 ^ 1024 else m)"

text \<open>
  \<^verbatim>\<open>parseInt(s, 10)\<close>: skip white space, take a sign, read the longest run of decimal
  digits, and ignore what follows; \<^verbatim>\<open>NaN\<close> when there is no digit to read. The result
  is the double nearest to the number the digits spell. (Past twenty significant digits
  the language lets an engine round from fewer digits; the model rounds from all.)
\<close>

definition parseInt :: "string \<Rightarrow> jsnum" where
  "parseInt s =
     (let t = dropWhile is_space s;
          neg = (t \<noteq> [] \<and> hd t = CHR ''-'');
          u = (if t \<noteq> [] \<and> (hd t = CHR ''-'' \<or> hd t = CHR ''+'') then tl t else t);
          z = takeWhile is_digit u
      in if z = [] then NaN
         else Fin (if neg then - to_double (digits_value z) else to_double (digits_value z)))"

section \<open>Responses\<close>

text \<open>The note that \<^verbatim>\<open>POST /notes\<close> answers with.\<close>

record created_note =
  cn_id :: int
  cn_title :: jsval
  cn_content :: jsval
  cn_created_at :: jsval
  cn_updated_at :: jsval
  cn_is_hidden :: jsval
  cn_user_id :: jsnum

datatype payload =
    Error string
  | DbError sql_error
  | Message string
  | Rows "note_row list"
  | Row "user_row option"
  | NewUser int jsval
  | NewNote created_note

type_synonym response = "nat \<times> payload"

text \<open>
  \<^verbatim>\<open>userFromHeader\<close>: the value of the header \<^verbatim>\<open>x-user-id\<close>, \<open>None\<close> when the request
  has none. The handler \<open>next\<close> runs with \<^verbatim>\<open>req.userId\<close> set.
\<close>

definition userFromHeader ::
  "string option \<Rightarrow> (jsnum \<Rightarrow> database \<Rightarrow> response \<times> database) \<Rightarrow>
   database \<Rightarrow> response \<times> database" where
  "userFromHeader userId next db =
     (case userId of
        None \<Rightarrow> ((400, Error ''User ID header is required.''), db)
      | Some s \<Rightarrow>
          if s = [] then ((400, Error ''User ID header is required.''), db)
          else next (parseInt s) db)"

section \<open>Handlers\<close>

text \<open>\<^verbatim>\<open>app.post('/users')\<close>\<close>

definition post_users :: "jsval \<Rightarrow> database \<Rightarrow> response \<times> database" where
  "post_users name db =
     (if falsy name then ((400, Error ''Username is required.''), db)
      else case insert_users (bind_value name) (users_tbl db) of
             Inl err \<Rightarrow>
               if err = UniqueFailed
               then ((200, Row (select_users (bind_value name) (users_tbl db))), db)
               else ((500, DbError err), db)
           | Inr (lastID, us) \<Rightarrow> ((201, NewUser lastID name), db\<lparr>users_tbl := us\<rparr>))"

text \<open>\<^verbatim>\<open>app.get('/notes')\<close>, after \<^verbatim>\<open>userFromHeader\<close>.\<close>

definition get_notes :: "jsnum \<Rightarrow> database \<Rightarrow> response \<times> database" where
  "get_notes userId db = ((200, Rows (select_notes (bind_number userId) (notes_tbl db))), db)"

text \<open>
  \<^verbatim>\<open>app.post('/notes')\<close>, after \<^verbatim>\<open>userFromHeader\<close>. The body's fields, each \<open>Undefined\<close>
  when absent, and the two readings of the clock that the defaults take. The clock's
  ISO text spells no number, and the column keeps it as the text.
\<close>

record note_body =
  b_id :: jsval
  b_title :: jsval
  b_content :: jsval
  b_is_hidden :: jsval
  b_createdAt :: jsval

definition default_to :: "jsval \<Rightarrow> jsval \<Rightarrow> jsval" where
  "default_to v d = (if v = Undefined then d else v)"

text \<open>What \<^verbatim>\<open>created_at\<close> and \<^verbatim>\<open>updated_at\<close> keep of \<^verbatim>\<open>createdAt\<close>.\<close>

definition stamp_cell :: "affinity \<Rightarrow> jsval \<Rightarrow> string \<Rightarrow> sqlval" where
  "stamp_cell as_integer createdAt iso_now =
     (if createdAt = Undefined then SqlText iso_now
      else numeric_cell as_integer (bind_value createdAt))"

definition post_notes ::
  "affinity \<Rightarrow> int \<Rightarrow> string \<Rightarrow> note_body \<Rightarrow> jsnum \<Rightarrow> database \<Rightarrow> response \<times> database" where
  "post_notes as_integer date_now iso_now body userId db =
     (let idv = default_to (b_id body) (Num date_now);
          is_hiddenv = default_to (b_is_hidden body) (Bool False);
          createdAt = default_to (b_createdAt body) (Str iso_now)
      in if falsy (b_title body) \<or> falsy (b_content body)
         then ((400, Error ''Title and content are required.''), db)
         else case insert_notes as_integer (bind_value idv)
                     (text_cell (bind_value (b_title body)))
                     (text_cell (bind_value (b_content body)))
                     (stamp_cell as_integer (b_createdAt body) iso_now)
                     (stamp_cell as_integer (b_createdAt body) iso_now)
                     (numeric_cell as_integer (bind_value is_hiddenv))
                     (bind_number userId) (notes_tbl db) of
                Inl err \<Rightarrow> ((500, DbError err), db)
              | Inr (lastID, ns) \<Rightarrow>
                  ((201, NewNote \<lparr>cn_id = lastID, cn_title = b_title body,
                                  cn_content = b_content body, cn_created_at = createdAt,
                                  cn_updated_at = createdAt, cn_is_hidden = is_hiddenv,
                                  cn_user_id = userId\<rparr>),
                   db\<lparr>notes_tbl := ns\<rparr>))"

text \<open>\<^verbatim>\<open>app.patch('/notes/:id')\<close>, after \<^verbatim>\<open>userFromHeader\<close>.\<close>

record patch_body =
  p_title :: jsval
  p_content :: jsval
  p_is_hidden :: jsval

text \<open>The body that supplies none of the three fields.\<close>

definition no_fields :: patch_body where
  "no_fields = \<lparr>p_title = Undefined, p_content = Undefined, p_is_hidden = Undefined\<rparr>"

text \<open>The arrays \<^verbatim>\<open>fields\<close> and \<^verbatim>\<open>params\<close>, one pair for each assignment.\<close>

definition patch_fields ::
  "affinity \<Rightarrow> patch_body \<Rightarrow> string \<Rightarrow> (column \<times> sqlval) list" where
  "patch_fields as_integer body updatedAt =
     (if p_title body \<noteq> Undefined
      then [(Title, text_cell (bind_value (p_title body)))] else []) @
     (if p_content body \<noteq> Undefined
      then [(Content, text_cell (bind_value (p_content body)))] else []) @
     (if p_is_hidden body \<noteq> Undefined
      then [(Is_hidden, numeric_cell as_integer (bind_value (p_is_hidden body)))] else []) @
     [(Updated_at, SqlText updatedAt)]"

text \<open>\<^verbatim>\<open>WHERE id = ? AND user_id = ? AND deleted_at IS NULL\<close>\<close>

definition patch_where :: "affinity \<Rightarrow> string \<Rightarrow> jsnum \<Rightarrow> note_row \<Rightarrow> bool" where
  "patch_where as_integer ident userId r =
     (as_integer ident = Some (notes_id r) \<and> sql_eq (user_id r) (bind_number userId)
      \<and> deleted_at r = SqlNull)"

definition patch_notes ::
  "affinity \<Rightarrow> string \<Rightarrow> string \<Rightarrow> patch_body \<Rightarrow> jsnum \<Rightarrow> database \<Rightarrow>
   response \<times> database" where
  "patch_notes as_integer updatedAt ident body userId db =
     (if p_title body = Undefined \<and> p_content body = Undefined \<and> p_is_hidden body = Undefined
      then ((400, Error ''At least one field (title, content, is_hidden) must be provided.''), db)
      else case update_notes (patch_fields as_integer body updatedAt)
                  (patch_where as_integer ident userId) (notes_tbl db) of
             Inl err \<Rightarrow> ((500, DbError err), db)
           | Inr (changes, ns) \<Rightarrow>
               if changes = 0
               then ((404, Error ''Note not found or you do not have permission to edit it.''),
                     db\<lparr>notes_tbl := ns\<rparr>)
               else ((200, Message ''Note updated successfully.''), db\<lparr>notes_tbl := ns\<rparr>))"

text \<open>\<^verbatim>\<open>app.delete('/notes/:id')\<close>, after \<^verbatim>\<open>userFromHeader\<close>.\<close>

text \<open>\<^verbatim>\<open>WHERE id = ? AND user_id = ?\<close>\<close>

definition delete_where :: "affinity \<Rightarrow> string \<Rightarrow> jsnum \<Rightarrow> note_row \<Rightarrow> bool" where
  "delete_where as_integer ident userId r =
     (as_integer ident = Some (notes_id r) \<and> sql_eq (user_id r) (bind_number userId))"

definition delete_notes ::
  "affinity \<Rightarrow> string \<Rightarrow> string \<Rightarrow> jsnum \<Rightarrow> database \<Rightarrow> response \<times> database" where
  "delete_notes as_integer deletedAt ident userId db =
     (case update_notes [(Deleted_at, SqlText deletedAt)]
             (delete_where as_integer ident userId) (notes_tbl db) of
        Inl err \<Rightarrow> ((500, DbError err), db)
      | Inr (changes, ns) \<Rightarrow>
          if changes = 0
          then ((404, Error ''Note not found or you do not have permission to delete it.''),
                db\<lparr>notes_tbl := ns\<rparr>)
          else ((200, Message ''Note deleted successfully.''), db\<lparr>notes_tbl := ns\<rparr>))"

section \<open>Requests in sequence\<close>

text \<open>
  The connection runs the statements of the requests one after another. A request is
  the route, the header \<^verbatim>\<open>x-user-id\<close>, the path's \<^verbatim>\<open>:id\<close>, the body, and the readings
  of the clock its handler takes.
\<close>

datatype request =
    PostUsers jsval
  | GetNotes "string option"
  | PostNotes "string option" int string note_body
  | PatchNotes "string option" string string patch_body
  | DeleteNotes "string option" string string

fun handle :: "affinity \<Rightarrow> request \<Rightarrow> database \<Rightarrow> response \<times> database" where
  "handle as_integer (PostUsers name) db = post_users name db"
| "handle as_integer (GetNotes h) db = userFromHeader h get_notes db"
| "handle as_integer (PostNotes h date_now iso_now body) db =
     userFromHeader h (post_notes as_integer date_now iso_now body) db"
| "handle as_integer (PatchNotes h updatedAt ident body) db =
     userFromHeader h (patch_notes as_integer updatedAt ident body) db"
| "handle as_integer (DeleteNotes h deletedAt ident) db =
     userFromHeader h (delete_notes as_integer deletedAt ident) db"

fun run :: "affinity \<Rightarrow> request list \<Rightarrow> database \<Rightarrow> response list \<times> database" where
  "run as_integer [] db = ([], db)"
| "run as_integer (rq # rqs) db =
     (let (resp, db') = handle as_integer rq db;
          (resps, db'') = run as_integer rqs db'
      in (resp # resps, db''))"

text \<open>The requests that soft-delete the note \<open>k\<close> as the user \<open>u\<close>.\<close>

fun soft_deletes :: "affinity \<Rightarrow> int \<Rightarrow> int \<Rightarrow> request \<Rightarrow> bool" where
  "soft_deletes as_integer u k (DeleteNotes (Some s) deletedAt ident) =
     (parseInt s = Fin u \<and> as_integer ident = Some k)"
| "soft_deletes as_integer u k rq = False"

text \<open>The note \<open>k\<close> is among the rows that \<^verbatim>\<open>GET /notes\<close> answers the user \<open>u\<close> with.\<close>

definition listed :: "int \<Rightarrow> int \<Rightarrow> database \<Rightarrow> bool" where
  "listed u k db = (k \<in> notes_id ` set (select_notes (SqlInt u) (notes_tbl db)))"

text \<open>
  A reading of plain decimal numerals, an optional minus sign and digits, that the
  examples take for the engine's.
\<close>

definition decimal :: affinity where
  "decimal s =
     (let u = (if s \<noteq> [] \<and> hd s = CHR ''-'' then tl s else s)
      in if u \<noteq> [] \<and> list_all is_digit u
         then Some (if s \<noteq> [] \<and> hd s = CHR ''-'' then - digits_value u else digits_value u)
         else None)"

section \<open>An example database\<close>

definition alice :: user_row where
  "alice = \<lparr>users_id = 1, username = SqlText ''alice'', password = SqlNull\<rparr>"

definition note1 :: note_row where
  "note1 = \<lparr>notes_id = 1, title = SqlText ''T'', content = SqlText ''C'',
             created_at = SqlText ''t0'', updated_at = SqlText ''t0'',
             deleted_at = SqlNull, is_hidden = SqlInt 0, user_id = SqlInt 1\<rparr>"

definition db_one :: database where
  "db_one = \<lparr>users_tbl = [alice], notes_tbl = [note1]\<rparr>"

definition db_empty :: database where
  "db_empty = \<lparr>users_tbl = [alice], notes_tbl = []\<rparr>"

definition no_body :: note_body where
  "no_body = \<lparr>b_id = Undefined, b_title = Undefined, b_content = Undefined,
               b_is_hidden = Undefined, b_createdAt = Undefined\<rparr>"

definition body_TC :: note_body where
  "body_TC = no_body\<lparr>b_title := Str ''T'', b_content := Str ''C''\<rparr>"

text \<open>The note that \<open>body_TC\<close> creates at the time 42 for the user 1.\<close>

definition note42 :: note_row where
  "note42 = \<lparr>notes_id = 42, title = SqlText ''T'', content = SqlText ''C'',
              created_at = SqlText ''t0'', updated_at = SqlText ''t0'',
              deleted_at = SqlNull, is_hidden = SqlInt 0, user_id = SqlInt 1\<rparr>"

section \<open>Statements and assignments\<close>

lemma fold_set_column_keeps:
  "notes_id (fold set_column fs r) = notes_id r \<and> user_id (fold set_column fs r) = user_id r \<and>
   created_at (fold set_column fs r) = created_at r"
proof (induction fs arbitrary: r)
  case Nil
  then show ?case by simp
next
  case (Cons f fs)
  obtain c v where f: "f = (c, v)" by (cases f)
  show ?case using Cons[of "set_column (c, v) r"] by (cases c) (simp_all add: f)
qed

lemma update_notes_Inr:
  "update_notes fs wh ns = Inr (n, ns') \<Longrightarrow>
   n = length (filter wh ns) \<and> ns' = map (\<lambda>r. if wh r then fold set_column fs r else r) ns"
  by (simp add: update_notes_def split: if_splits)

lemma patch_fields_apply:
  "fold set_column (patch_fields a body t) r =
     r\<lparr>title := (if p_title body \<noteq> Undefined
                  then text_cell (bind_value (p_title body)) else title r),
       content := (if p_content body \<noteq> Undefined
                   then text_cell (bind_value (p_content body)) else content r),
       is_hidden := (if p_is_hidden body \<noteq> Undefined
                     then numeric_cell a (bind_value (p_is_hidden body)) else is_hidden r),
       updated_at := SqlText t\<rparr>"
  by (simp add: patch_fields_def)

lemma patch_where_iff:
  "patch_where a ident userId r =
     (a ident = Some (notes_id r) \<and> (\<exists>u. userId = Fin u \<and> user_id r = SqlInt u) \<and>
      deleted_at r = SqlNull)"
  by (cases userId) (auto simp: patch_where_def sql_eq_def)

lemma delete_where_iff:
  "delete_where a ident userId r =
     (a ident = Some (notes_id r) \<and> (\<exists>u. userId = Fin u \<and> user_id r = SqlInt u))"
  by (cases userId) (auto simp: delete_where_def sql_eq_def)

section \<open>Doubles\<close>

text \<open>The natural numbers up to \<open>2 ^ 53\<close> are doubles.\<close>

lemma to_double_exact: "n \<le> 2 ^ 53 \<Longrightarrow> to_double n = n"
proof (cases "n < 2 ^ 53")
  case True
  then show ?thesis by (simp add: to_double_def Let_def)
next
  case False
  assume "n \<le> 2 ^ 53"
  with False have n: "n = 2 ^ 53" by simp
  have "exponent_of (2 ^ 53) = 1"
    by (subst exponent_of.simps) simp
  then show ?thesis unfolding n by (simp add: to_double_def Let_def)
qed

section \<open>Readings in the examples\<close>

lemma decimal_1: "decimal ''1'' = Some 1"
  by (simp add: decimal_def is_digit_def digits_value_def)

lemma decimal_42: "decimal ''42'' = Some 42"
  by (simp add: decimal_def is_digit_def digits_value_def)

lemma parseInt_1: "parseInt ''1'' = Fin 1"
  by (simp add: parseInt_def is_space_def is_digit_def digits_value_def to_double_exact)

section \<open>What each handler can answer\<close>

lemma patch_notes_cases:
  assumes "patch_notes a t ident body userId db = (resp, db')"
  obtains
    (invalid) "p_title body = Undefined" "p_content body = Undefined" "p_is_hidden body = Undefined"
      "resp = (400, Error ''At least one field (title, content, is_hidden) must be provided.'')"
      "db' = db"
  | (failed) "resp = (500, DbError NotNullFailed)" "db' = db"
      "\<exists>r \<in> set (notes_tbl db). patch_where a ident userId r"
      "\<exists>(c, v) \<in> set (patch_fields a body t). not_null c \<and> v = SqlNull"
  | (missed) "resp = (404, Error ''Note not found or you do not have permission to edit it.'')"
      "db' = db" "\<forall>r \<in> set (notes_tbl db). \<not> patch_where a ident userId r"
  | (changed) "resp = (200, Message ''Note updated successfully.'')"
      "db' = db\<lparr>notes_tbl := map (\<lambda>r. if patch_where a ident userId r
                  then fold set_column (patch_fields a body t) r else r) (notes_tbl db)\<rparr>"
      "\<exists>r \<in> set (notes_tbl db). patch_where a ident userId r"
      "\<forall>(c, v) \<in> set (patch_fields a body t). not_null c \<longrightarrow> v \<noteq> SqlNull"
proof (cases "p_title body = Undefined \<and> p_content body = Undefined \<and> p_is_hidden body = Undefined")
  case True
  with assms invalid show ?thesis by (simp add: patch_notes_def)
next
  case False
  then have ne: "(p_title body = Undefined \<and> p_content body = Undefined \<and>
      p_is_hidden body = Undefined) = False" by simp
  note run = assms[unfolded patch_notes_def ne if_False]
  let ?wh = "patch_where a ident userId"
  show ?thesis
  proof (cases "\<exists>r \<in> set (notes_tbl db). ?wh r")
    case hit: True
    show ?thesis
    proof (cases "\<exists>(c, v) \<in> set (patch_fields a body t). not_null c \<and> v = SqlNull")
      case True
      with hit have "update_notes (patch_fields a body t) ?wh (notes_tbl db) = Inl NotNullFailed"
        by (simp add: update_notes_def)
      with run have "resp = (500, DbError NotNullFailed)" "db' = db" by auto
      then show ?thesis using hit True by (rule failed)
    next
      case False
      with hit have "update_notes (patch_fields a body t) ?wh (notes_tbl db) =
          Inr (length (filter ?wh (notes_tbl db)),
               map (\<lambda>r. if ?wh r then fold set_column (patch_fields a body t) r else r) (notes_tbl db))"
        by (simp add: update_notes_def)
      moreover from hit have "length (filter ?wh (notes_tbl db)) \<noteq> 0"
        by (simp add: filter_empty_conv)
      ultimately show ?thesis using run hit False changed by auto
    qed
  next
    case miss: False
    then have "update_notes (patch_fields a body t) ?wh (notes_tbl db) = Inr (0, notes_tbl db)"
      by (simp add: update_notes_def map_idI)
    with run miss missed show ?thesis by simp
  qed
qed

lemma delete_notes_cases:
  assumes "delete_notes a t ident userId db = (resp, db')"
  obtains
    (missed) "resp = (404, Error ''Note not found or you do not have permission to delete it.'')"
      "db' = db" "\<forall>r \<in> set (notes_tbl db). \<not> delete_where a ident userId r"
  | (changed) "resp = (200, Message ''Note deleted successfully.'')"
      "db' = db\<lparr>notes_tbl := map (\<lambda>r. if delete_where a ident userId r
                  then r\<lparr>deleted_at := SqlText t\<rparr> else r) (notes_tbl db)\<rparr>"
      "\<exists>r \<in> set (notes_tbl db). delete_where a ident userId r"
proof (cases "\<exists>r \<in> set (notes_tbl db). delete_where a ident userId r")
  case True
  then have "length (filter (delete_where a ident userId) (notes_tbl db)) \<noteq> 0"
    by (simp add: filter_empty_conv)
  with assms True have "resp = (200, Message ''Note deleted successfully.'')"
    "db' = db\<lparr>notes_tbl := map (\<lambda>r. if delete_where a ident userId r
                  then r\<lparr>deleted_at := SqlText t\<rparr> else r) (notes_tbl db)\<rparr>"
    by (auto simp: delete_notes_def update_notes_def)
  then show ?thesis using True by (rule changed)
next
  case False
  with assms missed show ?thesis
    by (simp add: delete_notes_def update_notes_def map_idI)
qed


lemma post_notes_cases:
  assumes "post_notes a date_now iso_now body userId db = (resp, db')"
  obtains
    (invalid) "falsy (b_title body) \<or> falsy (b_content body)"
      "resp = (400, Error ''Title and content are required.'')" "db' = db"
  | (failed) err where "resp = (500, DbError err)" "db' = db"
  | (created) k where
      "\<not> falsy (b_title body)" "\<not> falsy (b_content body)"
      "rowid_of a (bind_value (default_to (b_id body) (Num date_now))) (notes_tbl db) = Inr k"
      "k \<notin> notes_id ` set (notes_tbl db)"
      "b_createdAt body \<noteq> Null"
      "b_is_hidden body \<noteq> Null"
      "resp = (201, NewNote \<lparr>cn_id = k, cn_title = b_title body, cn_content = b_content body,
          cn_created_at = default_to (b_createdAt body) (Str iso_now),
          cn_updated_at = default_to (b_createdAt body) (Str iso_now),
          cn_is_hidden = default_to (b_is_hidden body) (Bool False), cn_user_id = userId\<rparr>)"
      "db' = db\<lparr>notes_tbl := insort_key notes_id
          \<lparr>notes_id = k, title = text_cell (bind_value (b_title body)),
           content = text_cell (bind_value (b_content body)),
           created_at = stamp_cell a (b_createdAt body) iso_now,
           updated_at = stamp_cell a (b_createdAt body) iso_now,
           deleted_at = SqlNull,
           is_hidden = numeric_cell a (bind_value (default_to (b_is_hidden body) (Bool False))),
           user_id = bind_number userId\<rparr> (notes_tbl db)\<rparr>"
proof (cases "falsy (b_title body) \<or> falsy (b_content body)")
  case True
  with assms invalid show ?thesis by (simp add: post_notes_def Let_def)
next
  case False
  let ?row = "\<lambda>k. \<lparr>notes_id = k, title = text_cell (bind_value (b_title body)),
           content = text_cell (bind_value (b_content body)),
           created_at = stamp_cell a (b_createdAt body) iso_now,
           updated_at = stamp_cell a (b_createdAt body) iso_now,
           deleted_at = SqlNull,
           is_hidden = numeric_cell a (bind_value (default_to (b_is_hidden body) (Bool False))),
           user_id = bind_number userId\<rparr>"
  let ?ins = "insert_notes a (bind_value (default_to (b_id body) (Num date_now)))
      (text_cell (bind_value (b_title body))) (text_cell (bind_value (b_content body)))
      (stamp_cell a (b_createdAt body) iso_now) (stamp_cell a (b_createdAt body) iso_now)
      (numeric_cell a (bind_value (default_to (b_is_hidden body) (Bool False))))
      (bind_number userId) (notes_tbl db)"
  show ?thesis
  proof (cases ?ins)
    case (Inl err)
    with assms False have "resp = (500, DbError err)" "db' = db"
      by (auto simp: post_notes_def Let_def)
    then show ?thesis by (rule failed)
  next
    case (Inr res)
    obtain k ns where res: "res = (k, ns)" by (cases res)
    from Inr res have key: "rowid_of a (bind_value (default_to (b_id body) (Num date_now)))
          (notes_tbl db) = Inr k"
      and fresh: "k \<notin> notes_id ` set (notes_tbl db)"
      and stamp: "stamp_cell a (b_createdAt body) iso_now \<noteq> SqlNull"
      and flag: "numeric_cell a (bind_value (default_to (b_is_hidden body) (Bool False))) \<noteq> SqlNull"
      and ns: "ns = insort_key notes_id (?row k) (notes_tbl db)"
      by (auto simp: insert_notes_def split: sum.splits if_splits)
    from stamp have c: "b_createdAt body \<noteq> Null"
      by (auto simp: stamp_cell_def)
    from flag have h: "b_is_hidden body \<noteq> Null"
      by (auto simp: default_to_def)
    from assms False Inr res ns
    have "resp = (201, NewNote \<lparr>cn_id = k, cn_title = b_title body, cn_content = b_content body,
          cn_created_at = default_to (b_createdAt body) (Str iso_now),
          cn_updated_at = default_to (b_createdAt body) (Str iso_now),
          cn_is_hidden = default_to (b_is_hidden body) (Bool False), cn_user_id = userId\<rparr>)"
      and "db' = db\<lparr>notes_tbl := insort_key notes_id (?row k) (notes_tbl db)\<rparr>"
      by (auto simp: post_notes_def Let_def)
    with False key fresh c h show ?thesis by (intro created) auto
  qed
qed

lemma userFromHeader_cases:
  assumes "userFromHeader h nxt db = (resp, db')"
  obtains
    (rejected) "h = None \<or> h = Some []" "resp = (400, Error ''User ID header is required.'')"
      "db' = db"
  | (resolved) s where "h = Some s" "s \<noteq> []" "nxt (parseInt s) db = (resp, db')"
proof (cases h)
  case None
  with assms have "resp = (400, Error ''User ID header is required.'')" "db' = db"
    by (auto simp: userFromHeader_def)
  with None show ?thesis by (intro rejected) auto
next
  case (Some s)
  show ?thesis
  proof (cases "s = []")
    case True
    with Some assms have "resp = (400, Error ''User ID header is required.'')" "db' = db"
      by (auto simp: userFromHeader_def)
    with Some True show ?thesis by (intro rejected) auto
  next
    case False
    with Some assms have "nxt (parseInt s) db = (resp, db')"
      by (simp add: userFromHeader_def)
    with Some False show ?thesis by (intro resolved)
  qed
qed

lemma post_users_notes: "notes_tbl (snd (post_users name db)) = notes_tbl db"
  by (simp add: post_users_def split: sum.splits prod.splits)

text \<open>What a request can do to the notes: rewrite rows in place, or insert one.\<close>

lemma handle_step:
  assumes "handle a rq db = (resp, db')"
  obtains
    (kept) g where "notes_tbl db' = map g (notes_tbl db)"
      "\<And>r. notes_id (g r) = notes_id r \<and> user_id (g r) = user_id r \<and>
            created_at (g r) = created_at r"
      "\<And>r. deleted_at r \<noteq> SqlNull \<Longrightarrow> deleted_at (g r) \<noteq> SqlNull"
      "\<And>r. deleted_at (g r) \<noteq> deleted_at r \<Longrightarrow>
            \<exists>u. user_id r = SqlInt u \<and> soft_deletes a u (notes_id r) rq"
  | (inserted) row where "notes_tbl db' = insort_key notes_id row (notes_tbl db)"
      "notes_id row \<notin> notes_id ` set (notes_tbl db)"
proof -
  have same: thesis if "notes_tbl db' = notes_tbl db"
    using that by (intro kept[of "\<lambda>r. r"]) simp_all
  show ?thesis
  proof (cases rq)
    case (PostUsers name)
    with assms have "notes_tbl db' = notes_tbl db"
      using post_users_notes[of name db] by simp
    then show ?thesis by (rule same)
  next
    case (GetNotes h)
    with assms have "userFromHeader h get_notes db = (resp, db')" by simp
    then have "notes_tbl db' = notes_tbl db"
      by (cases rule: userFromHeader_cases) (auto simp: get_notes_def)
    then show ?thesis by (rule same)
  next
    case (PostNotes h date_now iso_now body)
    with assms have "userFromHeader h (post_notes a date_now iso_now body) db = (resp, db')"
      by simp
    then show ?thesis
    proof (cases rule: userFromHeader_cases)
      case rejected
      then show ?thesis by (intro same) simp
    next
      case (resolved s)
      from resolved(3) show ?thesis
      proof (cases rule: post_notes_cases)
        case invalid
        then show ?thesis by (intro same) simp
      next
        case (failed err)
        then show ?thesis by (intro same) simp
      next
        case (created k)
        show ?thesis
          by (rule inserted[of "\<lparr>notes_id = k, title = text_cell (bind_value (b_title body)),
             content = text_cell (bind_value (b_content body)),
             created_at = stamp_cell a (b_createdAt body) iso_now,
             updated_at = stamp_cell a (b_createdAt body) iso_now,
             deleted_at = SqlNull,
             is_hidden = numeric_cell a (bind_value (default_to (b_is_hidden body) (Bool False))),
             user_id = bind_number (parseInt s)\<rparr>"]) (simp_all add: created)
      qed
    qed
  next
    case (PatchNotes h t ident body)
    with assms have "userFromHeader h (patch_notes a t ident body) db = (resp, db')"
      by simp
    then show ?thesis
    proof (cases rule: userFromHeader_cases)
      case rejected
      then show ?thesis by (intro same) simp
    next
      case (resolved s)
      from resolved(3) show ?thesis
      proof (cases rule: patch_notes_cases)
        case invalid
        then show ?thesis by (intro same) simp
      next
        case failed
        then show ?thesis by (intro same) simp
      next
        case missed
        then show ?thesis by (intro same) simp
      next
        case changed
        show ?thesis
          by (rule kept[of "\<lambda>r. if patch_where a ident (parseInt s) r
                  then fold set_column (patch_fields a body t) r else r"])
            (auto simp: changed patch_fields_apply split: if_splits)
      qed
    qed
  next
    case (DeleteNotes h t ident)
    with assms have "userFromHeader h (delete_notes a t ident) db = (resp, db')"
      by simp
    then show ?thesis
    proof (cases rule: userFromHeader_cases)
      case rejected
      then show ?thesis by (intro same) simp
    next
      case (resolved s)
      from resolved(3) show ?thesis
      proof (cases rule: delete_notes_cases)
        case missed
        then show ?thesis by (intro same) simp
      next
        case changed
        show ?thesis
          by (rule kept[of "\<lambda>r. if delete_where a ident (parseInt s) r
                  then r\<lparr>deleted_at := SqlText t\<rparr> else r"])
            (auto simp: changed DeleteNotes resolved delete_where_iff split: if_splits)
      qed
    qed
  qed
qed

section \<open>Listed and soft-deleted notes\<close>

lemma listed_iff:
  "listed u k db =
     (\<exists>r \<in> set (notes_tbl db). notes_id r = k \<and> user_id r = SqlInt u \<and> deleted_at r = SqlNull)"
  by (auto simp: listed_def select_notes_def sql_eq_def)

lemma listed_get_notes:
  "listed u k db =
     (\<exists>rows. get_notes (Fin u) db = ((200, Rows rows), db) \<and> k \<in> notes_id ` set rows)"
  by (simp add: listed_def get_notes_def)

lemma listed_kept:
  assumes "listed u k db" and "handle a rq db = (resp, db')" and "\<not> soft_deletes a u k rq"
  shows "listed u k db'"
proof -
  from assms(1) obtain r where r: "r \<in> set (notes_tbl db)" "notes_id r = k"
    "user_id r = SqlInt u" "deleted_at r = SqlNull"
    by (auto simp: listed_iff)
  from assms(2) show ?thesis
  proof (cases rule: handle_step)
    case (kept g)
    from kept(4)[of r] r assms(3) have "deleted_at (g r) = SqlNull" by auto
    with kept(1) kept(2)[of r] r show ?thesis
      unfolding listed_iff by (intro bexI[of _ "g r"]) auto
  next
    case (inserted row)
    with r show ?thesis unfolding listed_iff by (auto simp: set_insort_key)
  qed
qed

lemma listed_run:
  assumes "listed u k db" and "run a rqs db = (resps, db')"
    and "\<forall>rq \<in> set rqs. \<not> soft_deletes a u k rq"
  shows "listed u k db'"
  using assms
proof (induction rqs arbitrary: db resps)
  case Nil
  then show ?case by simp
next
  case (Cons rq rqs)
  obtain resp dbs where step: "handle a rq db = (resp, dbs)" by (cases "handle a rq db")
  from Cons.prems(2) step obtain rest where more: "run a rqs dbs = (rest, db')"
    by (auto split: prod.splits)
  from Cons.prems(1,3) step have "listed u k dbs" by (auto intro: listed_kept)
  then show ?case using Cons.IH[OF _ more] Cons.prems(3) by simp
qed

text \<open>A soft-deleted note: its row is stored, and it is not listed.\<close>

lemma gone_kept:
  assumes "k \<in> notes_id ` set (notes_tbl db)" and "\<not> listed u k db"
    and "handle a rq db = (resp, db')"
  shows "k \<in> notes_id ` set (notes_tbl db') \<and> \<not> listed u k db'"
proof -
  from assms(3) show ?thesis
  proof (cases rule: handle_step)
    case (kept g)
    have "notes_id ` set (notes_tbl db') = notes_id ` set (notes_tbl db)"
      by (simp add: kept(1) kept(2) image_image)
    moreover have "\<not> listed u k db'"
    proof
      assume "listed u k db'"
      then obtain r where r: "r \<in> set (notes_tbl db)" "notes_id (g r) = k"
        "user_id (g r) = SqlInt u" "deleted_at (g r) = SqlNull"
        by (auto simp: listed_iff kept(1))
      with kept(3)[of r] have "deleted_at r = SqlNull" by auto
      with r kept(2)[of r] have "listed u k db" by (auto simp: listed_iff)
      with assms(2) show False by simp
    qed
    ultimately show ?thesis using assms(1) by simp
  next
    case (inserted row)
    with assms(1) have "notes_id row \<noteq> k" by auto
    with inserted assms(1,2) show ?thesis
      by (auto simp: listed_iff set_insort_key)
  qed
qed

lemma gone_run:
  assumes "k \<in> notes_id ` set (notes_tbl db)" and "\<not> listed u k db"
    and "run a rqs db = (resps, db')"
  shows "k \<in> notes_id ` set (notes_tbl db') \<and> \<not> listed u k db'"
  using assms
proof (induction rqs arbitrary: db resps)
  case Nil
  then show ?case by simp
next
  case (Cons rq rqs)
  obtain resp dbs where step: "handle a rq db = (resp, dbs)" by (cases "handle a rq db")
  from Cons.prems(3) step obtain rest where more: "run a rqs dbs = (rest, db')"
    by (auto split: prod.splits)
  from gone_kept[OF Cons.prems(1,2) step]
  have "k \<in> notes_id ` set (notes_tbl dbs)" "\<not> listed u k dbs" by simp_all
  then show ?case using Cons.IH[OF _ _ more] by simp
qed

lemma delete_notes_hit:
  assumes "r \<in> set (notes_tbl db)" and "a ident = Some (notes_id r)" and "user_id r = SqlInt u"
    and "delete_notes a t ident (Fin u) db = (resp, db')"
  shows "resp = (200, Message ''Note deleted successfully.'') \<and>
     users_tbl db' = users_tbl db \<and>
     r\<lparr>deleted_at := SqlText t\<rparr> \<in> set (notes_tbl db') \<and> \<not> listed u (notes_id r) db'"
proof -
  from assms(1-3) have hit: "\<exists>r \<in> set (notes_tbl db). delete_where a ident (Fin u) r"
    by (auto simp: delete_where_iff)
  from assms(4) show ?thesis
  proof (cases rule: delete_notes_cases)
    case missed
    with hit show ?thesis by simp
  next
    case changed
    from assms(1-3) have "r\<lparr>deleted_at := SqlText t\<rparr> \<in> set (notes_tbl db')"
      by (force simp: changed delete_where_iff)
    moreover have "\<not> listed u (notes_id r) db'"
      using assms(2) by (auto simp: listed_iff changed delete_where_iff split: if_splits)
    ultimately show ?thesis using changed by simp
  qed
qed

section \<open>Partial update\<close>

text \<open>
  C1. For a patch that supplies a field, \<^verbatim>\<open>PATCH /notes/:id\<close> leaves the users alone and
  changes a note only where the row's id is the one the path names, its \<^verbatim>\<open>user_id\<close> is
  the caller's and its \<^verbatim>\<open>deleted_at\<close> is NULL. When no row is such (no such note,
  another owner, or soft-deleted) the answer is the one 404 and the database is as before.
\<close>

theorem update_scoped:
  assumes "\<not> (p_title body = Undefined \<and> p_content body = Undefined \<and> p_is_hidden body = Undefined)"
    and "patch_notes a t ident body userId db = (resp, db')"
  shows "users_tbl db' = users_tbl db \<and>
     list_all2 (\<lambda>r r'. r' \<noteq> r \<longrightarrow>
        a ident = Some (notes_id r) \<and> (\<exists>u. userId = Fin u \<and> user_id r = SqlInt u) \<and>
        deleted_at r = SqlNull) (notes_tbl db) (notes_tbl db') \<and>
     ((\<forall>r \<in> set (notes_tbl db). \<not> (a ident = Some (notes_id r) \<and>
        (\<exists>u. userId = Fin u \<and> user_id r = SqlInt u) \<and> deleted_at r = SqlNull)) \<longrightarrow>
      resp = (404, Error ''Note not found or you do not have permission to edit it.'') \<and> db' = db)"
proof -
  let ?wh = "patch_where a ident userId"
  let ?fs = "patch_fields a body t"
  from assms(1) have ne: "(p_title body = Undefined \<and> p_content body = Undefined \<and>
      p_is_hidden body = Undefined) = False" by simp
  note run = assms(2)[unfolded patch_notes_def ne if_False]
  show ?thesis
  proof (cases "update_notes ?fs ?wh (notes_tbl db)")
    case (Inl err)
    with run have "db' = db" by simp
    moreover from Inl have "\<exists>r \<in> set (notes_tbl db). ?wh r"
      by (auto simp: update_notes_def split: if_splits)
    ultimately show ?thesis
      by (auto simp: patch_where_iff list_all2_same)
  next
    case (Inr res)
    obtain n ns where res: "res = (n, ns)" by (cases res)
    from Inr res have n: "n = length (filter ?wh (notes_tbl db))"
      and ns: "ns = map (\<lambda>r. if ?wh r then fold set_column ?fs r else r) (notes_tbl db)"
      using update_notes_Inr by blast+
    from run Inr res have db': "db' = db\<lparr>notes_tbl := ns\<rparr>"
      by (simp split: if_splits)
    have scoped: "list_all2 (\<lambda>r r'. r' \<noteq> r \<longrightarrow> ?wh r) (notes_tbl db) ns"
      unfolding ns by (simp add: list_all2_map2 list_all2_same)
    have miss: "resp = (404, Error ''Note not found or you do not have permission to edit it.'') \<and> db' = db"
      if none: "\<forall>r \<in> set (notes_tbl db). \<not> ?wh r"
    proof -
      from none have n0: "n = 0" by (simp add: n)
      from none have same: "ns = notes_tbl db" by (simp add: ns map_idI)
      from run Inr res n0 same show ?thesis by simp
    qed
    from scoped miss show ?thesis by (simp add: db' patch_where_iff)
  qed
qed

text \<open>The user 2 patches the note 1 of the user 1.\<close>

theorem update_scoped_witness:
  "patch_notes decimal ''t1'' ''1'' (no_fields\<lparr>p_title := Str ''X''\<rparr>) (Fin 2) db_one =
     ((404, Error ''Note not found or you do not have permission to edit it.''), db_one)"
proof -
  obtain resp db' where run:
    "patch_notes decimal ''t1'' ''1'' (no_fields\<lparr>p_title := Str ''X''\<rparr>) (Fin 2) db_one = (resp, db')"
    by (cases "patch_notes decimal ''t1'' ''1'' (no_fields\<lparr>p_title := Str ''X''\<rparr>) (Fin 2) db_one")
  have given: "\<not> (p_title (no_fields\<lparr>p_title := Str ''X''\<rparr>) = Undefined \<and>
      p_content (no_fields\<lparr>p_title := Str ''X''\<rparr>) = Undefined \<and>
      p_is_hidden (no_fields\<lparr>p_title := Str ''X''\<rparr>) = Undefined)"
    by (simp add: no_fields_def)
  from update_scoped [OF given run]
  have "resp = (404, Error ''Note not found or you do not have permission to edit it.'') \<and>
      db' = db_one"
    by (simp add: db_one_def note1_def)
  with run show ?thesis by simp
qed

section \<open>Validation of a patch\<close>

text \<open>
  C6. A patch that supplies none of \<^verbatim>\<open>title\<close>, \<^verbatim>\<open>content\<close>, \<^verbatim>\<open>is_hidden\<close> is answered
  with the validation error for every caller and note id, whatever the database holds,
  and the database is returned as it was. The route as a whole, whatever the header,
  answers such a patch with 400 and changes nothing.
\<close>

theorem patch_without_fields:
  "patch_notes a t ident no_fields userId db =
     ((400, Error ''At least one field (title, content, is_hidden) must be provided.''), db) \<and>
   fst (fst (handle a (PatchNotes h t ident no_fields) db)) = 400 \<and>
   snd (handle a (PatchNotes h t ident no_fields) db) = db"
  by (simp add: patch_notes_def no_fields_def userFromHeader_def split: option.splits)

theorem patch_without_fields_witness:
  "patch_notes decimal ''t1'' ''1'' no_fields (Fin 1) db_one =
     ((400, Error ''At least one field (title, content, is_hidden) must be provided.''), db_one)"
  using patch_without_fields [of decimal "''t1''" "''1''" "Fin 1" db_one] by simp

section \<open>The visible notes of a user\<close>

text \<open>
  C2. \<^verbatim>\<open>GET /notes\<close> answers 200 with exactly the stored rows whose \<^verbatim>\<open>user_id\<close> is the
  caller's and whose \<^verbatim>\<open>deleted_at\<close> is NULL, in stored order, for every caller and every
  database (no row when none matches), and changes nothing. A note created under the
  user \<open>u\<close> is listed for \<open>u\<close> after its creation and after any requests of which none
  soft-deletes it as \<open>u\<close>; the request that does is answered with success, and from then
  on, through any further requests, the note is not listed while its row stays stored.
\<close>

theorem list_visible:
  assumes made: "post_notes a date_now iso_now body (Fin u) db = ((201, NewNote j), db1)"
    and quiet: "\<forall>rq \<in> set rqs. \<not> soft_deletes a u (cn_id j) rq"
    and before: "run a rqs db1 = (resps, db2)"
    and deleting: "soft_deletes a u (cn_id j) rq"
    and deleted: "handle a rq db2 = (resp, db3)"
    and after: "run a rqs' db3 = (resps', db4)"
  shows "get_notes userId db0 =
       ((200, Rows (filter (\<lambda>r. (\<exists>v. userId = Fin v \<and> user_id r = SqlInt v) \<and>
                                 deleted_at r = SqlNull) (notes_tbl db0))), db0) \<and>
     listed u (cn_id j) db1 \<and> listed u (cn_id j) db2 \<and>
     resp = (200, Message ''Note deleted successfully.'') \<and>
     \<not> listed u (cn_id j) db3 \<and> cn_id j \<in> notes_id ` set (notes_tbl db3) \<and>
     \<not> listed u (cn_id j) db4 \<and> cn_id j \<in> notes_id ` set (notes_tbl db4)"
proof -
  have rows: "get_notes userId db0 =
       ((200, Rows (filter (\<lambda>r. (\<exists>v. userId = Fin v \<and> user_id r = SqlInt v) \<and>
                                 deleted_at r = SqlNull) (notes_tbl db0))), db0)"
    by (cases userId) (auto simp: get_notes_def select_notes_def sql_eq_def intro: filter_cong)
  from made have l1: "listed u (cn_id j) db1"
  proof (cases rule: post_notes_cases)
    case (created k)
    from created(7) have "cn_id j = k" by simp
    then show ?thesis by (simp add: listed_iff created(8) set_insort_key)
  qed simp_all
  from l1 before quiet have l2: "listed u (cn_id j) db2" by (rule listed_run)
  then obtain r where r: "r \<in> set (notes_tbl db2)" "notes_id r = cn_id j" "user_id r = SqlInt u"
    by (auto simp: listed_iff)
  from deleting obtain s t ident where rq: "rq = DeleteNotes (Some s) t ident"
    and s: "parseInt s = Fin u" and ident: "a ident = Some (cn_id j)"
    by (cases "(a, u, cn_id j, rq)" rule: soft_deletes.cases) auto
  from s have "s \<noteq> []" by (auto simp: parseInt_def)
  with deleted rq s have "delete_notes a t ident (Fin u) db2 = (resp, db3)"
    by (simp add: userFromHeader_def)
  from delete_notes_hit[OF r(1) _ r(3) this] ident r(2)
  have d: "resp = (200, Message ''Note deleted successfully.'')"
    "r\<lparr>deleted_at := SqlText t\<rparr> \<in> set (notes_tbl db3)" "\<not> listed u (cn_id j) db3"
    by simp_all
  from d(2) r(2) have stored: "cn_id j \<in> notes_id ` set (notes_tbl db3)" by force
  from gone_run[OF stored d(3) after] rows l1 l2 d stored show ?thesis by simp
qed

text \<open>
  The user 1 creates the note 42, retitles it, soft-deletes it and lists the notes.
\<close>

theorem list_visible_witness:
  "listed 1 42 \<lparr>users_tbl = [alice], notes_tbl = [note42\<lparr>title := SqlText ''T2'', updated_at := SqlText ''t1''\<rparr>]\<rparr> \<and>
   \<not> listed 1 42 \<lparr>users_tbl = [alice], notes_tbl = [note42\<lparr>title := SqlText ''T2'',
        updated_at := SqlText ''t1'', deleted_at := SqlText ''t2''\<rparr>]\<rparr>"
proof -
  let ?db1 = "\<lparr>users_tbl = [alice], notes_tbl = [note42]\<rparr>"
  let ?db2 = "\<lparr>users_tbl = [alice], notes_tbl = [note42\<lparr>title := SqlText ''T2'', updated_at := SqlText ''t1''\<rparr>]\<rparr>"
  let ?db3 = "\<lparr>users_tbl = [alice], notes_tbl = [note42\<lparr>title := SqlText ''T2'',
        updated_at := SqlText ''t1'', deleted_at := SqlText ''t2''\<rparr>]\<rparr>"
  let ?j = "\<lparr>cn_id = 42, cn_title = Str ''T'', cn_content = Str ''C'', cn_created_at = Str ''t0'',
      cn_updated_at = Str ''t0'', cn_is_hidden = Bool False, cn_user_id = Fin 1\<rparr>"
  let ?patch = "PatchNotes (Some ''1'') ''t1'' ''42'' (no_fields\<lparr>p_title := Str ''T2''\<rparr>)"
  let ?del = "DeleteNotes (Some ''1'') ''t2'' ''42''"
  have c: "post_notes decimal 42 ''t0'' body_TC (Fin 1) db_empty = ((201, NewNote ?j), ?db1)"
    by (simp add: post_notes_def insert_notes_def default_to_def stamp_cell_def int64_def
        body_TC_def no_body_def db_empty_def note42_def Let_def)
  have q: "\<forall>rq \<in> set [?patch]. \<not> soft_deletes decimal 1 (cn_id ?j) rq" by simp
  have b: "run decimal [?patch] ?db1 = ([(200, Message ''Note updated successfully.'')], ?db2)"
    by (simp add: userFromHeader_def parseInt_1 patch_notes_def update_notes_def patch_where_def
        sql_eq_def decimal_42 note42_def no_fields_def patch_fields_def)
  have d: "soft_deletes decimal 1 (cn_id ?j) ?del" by (simp add: parseInt_1 decimal_42)
  have e: "handle decimal ?del ?db2 = ((200, Message ''Note deleted successfully.''), ?db3)"
    by (simp add: userFromHeader_def parseInt_1 delete_notes_def update_notes_def delete_where_def
        sql_eq_def decimal_42 note42_def)
  have f: "run decimal [GetNotes (Some ''1'')] ?db3 = ([(200, Rows [])], ?db3)"
    by (simp add: userFromHeader_def parseInt_1 get_notes_def select_notes_def sql_eq_def note42_def)
  from list_visible [OF c q b d e f] show ?thesis by simp
qed

section \<open>Soft deletion\<close>

lemma delete_notes_scoped:
  assumes "delete_notes a t ident userId db = (resp, db')"
  shows "list_all2 (\<lambda>x x'. x' \<noteq> x \<longrightarrow>
            a ident = Some (notes_id x) \<and> (\<exists>u. userId = Fin u \<and> user_id x = SqlInt u))
          (notes_tbl db) (notes_tbl db')"
  using assms
  by (cases rule: delete_notes_cases)
     (auto simp: list_all2_map2 list_all2_same delete_where_iff)

text \<open>
  C3. \<^verbatim>\<open>DELETE /notes/:id\<close> selects by id and \<^verbatim>\<open>user_id\<close> alone: \<^verbatim>\<open>deleted_at\<close> is no
  part of the condition. Called any number of times, one or more, by the owner of a
  stored note, soft-deleted already or not, every call answers success, the note carries
  the time of the last call as its \<^verbatim>\<open>deleted_at\<close>, it is not listed for its owner, and
  no row other than those with this id and owner has changed.
\<close>

theorem soft_delete_again:
  assumes "r \<in> set (notes_tbl db)" and "a ident = Some (notes_id r)" and "user_id r = SqlInt u"
    and "parseInt h = Fin u" and "ts \<noteq> []"
    and "run a (map (\<lambda>t. DeleteNotes (Some h) t ident) ts) db = (resps, db')"
  shows "resps = replicate (length ts) (200, Message ''Note deleted successfully.'') \<and>
     r\<lparr>deleted_at := SqlText (last ts)\<rparr> \<in> set (notes_tbl db') \<and>
     \<not> listed u (notes_id r) db' \<and>
     list_all2 (\<lambda>x x'. x' \<noteq> x \<longrightarrow> a ident = Some (notes_id x) \<and> user_id x = SqlInt u)
       (notes_tbl db) (notes_tbl db')"
  using assms
proof (induction ts arbitrary: r db resps)
  case Nil
  then show ?case by simp
next
  case (Cons t ts)
  let ?ok = "(200, Message ''Note deleted successfully.'')"
  let ?P = "\<lambda>x x'. x' \<noteq> x \<longrightarrow> a ident = Some (notes_id x) \<and> user_id x = SqlInt u"
  from Cons.prems(4) have h: "h \<noteq> []" by (auto simp: parseInt_def)
  obtain resp dbs where step: "delete_notes a t ident (Fin u) db = (resp, dbs)"
    by (cases "delete_notes a t ident (Fin u) db")
  with h Cons.prems(4) have hstep: "handle a (DeleteNotes (Some h) t ident) db = (resp, dbs)"
    by (simp add: userFromHeader_def)
  from delete_notes_hit[OF Cons.prems(1-3) step]
  have resp: "resp = ?ok" and r': "r\<lparr>deleted_at := SqlText t\<rparr> \<in> set (notes_tbl dbs)"
    and gone: "\<not> listed u (notes_id r) dbs"
    by simp_all
  from delete_notes_scoped[OF step] have sc: "list_all2 ?P (notes_tbl db) (notes_tbl dbs)"
    by simp
  from Cons.prems(6) hstep obtain rest
    where more: "run a (map (\<lambda>t. DeleteNotes (Some h) t ident) ts) dbs = (rest, db')"
      and resps: "resps = resp # rest"
    by (auto split: prod.splits)
  show ?case
  proof (cases "ts = []")
    case True
    with more resps resp r' gone sc show ?thesis by simp
  next
    case False
    from Cons.IH[OF r' _ _ Cons.prems(4) False more] Cons.prems(2,3)
    have ih: "rest = replicate (length ts) ?ok"
      "r\<lparr>deleted_at := SqlText (last ts)\<rparr> \<in> set (notes_tbl db')"
      "\<not> listed u (notes_id r) db'"
      "list_all2 ?P (notes_tbl dbs) (notes_tbl db')"
      by simp_all
    have "list_all2 ?P (notes_tbl db) (notes_tbl db')"
      using sc ih(4) by (rule list_all2_trans[rotated]) auto
    with ih resps resp False show ?thesis by simp
  qed
qed

text \<open>The note 1, soft-deleted at \<open>t1\<close>, is soft-deleted again at \<open>t2\<close> and at \<open>t3\<close>.\<close>

theorem soft_delete_again_witness:
  "fst (run decimal [DeleteNotes (Some ''1'') ''t2'' ''1'', DeleteNotes (Some ''1'') ''t3'' ''1'']
          (db_one\<lparr>notes_tbl := [note1\<lparr>deleted_at := SqlText ''t1''\<rparr>]\<rparr>)) =
     [(200, Message ''Note deleted successfully.''), (200, Message ''Note deleted successfully.'')] \<and>
   note1\<lparr>deleted_at := SqlText ''t3''\<rparr> \<in> set (notes_tbl (snd
      (run decimal [DeleteNotes (Some ''1'') ''t2'' ''1'', DeleteNotes (Some ''1'') ''t3'' ''1'']
          (db_one\<lparr>notes_tbl := [note1\<lparr>deleted_at := SqlText ''t1''\<rparr>]\<rparr>)))) \<and>
   \<not> listed 1 1 (snd
      (run decimal [DeleteNotes (Some ''1'') ''t2'' ''1'', DeleteNotes (Some ''1'') ''t3'' ''1'']
          (db_one\<lparr>notes_tbl := [note1\<lparr>deleted_at := SqlText ''t1''\<rparr>]\<rparr>)))"
proof -
  let ?db = "db_one\<lparr>notes_tbl := [note1\<lparr>deleted_at := SqlText ''t1''\<rparr>]\<rparr>"
  let ?r = "note1\<lparr>deleted_at := SqlText ''t1''\<rparr>"
  let ?run = "run decimal (map (\<lambda>t. DeleteNotes (Some ''1'') t ''1'') [''t2'', ''t3'']) ?db"
  have 1: "?r \<in> set (notes_tbl ?db)" by simp
  have 2: "decimal ''1'' = Some (notes_id ?r)" by (simp add: decimal_1 note1_def)
  have 3: "user_id ?r = SqlInt 1" by (simp add: note1_def)
  have 5: "[''t2'', ''t3''] \<noteq> []" by simp
  have 6: "?run = (fst ?run, snd ?run)" by simp
  have 7: "notes_id note1 = 1" by (simp add: note1_def)
  from soft_delete_again [OF 1 2 3 parseInt_1 5 6] 7 show ?thesis
    by (simp add: numeral_2_eq_2)
qed

section \<open>Timestamps\<close>

lemma subseq_insort_key: "subseq xs (insort_key f x xs)"
  by (induction xs) auto

lemma distinct_map_insort_key:
  "distinct (map f (insort_key f x xs)) = (f x \<notin> f ` set xs \<and> distinct (map f xs))"
  by (induction xs) (auto simp: set_insort_key)

lemma handle_stamps:
  assumes "handle a rq db = (resp, db')"
  shows "subseq (map (\<lambda>r. (notes_id r, created_at r)) (notes_tbl db))
           (map (\<lambda>r. (notes_id r, created_at r)) (notes_tbl db')) \<and>
         (distinct (map notes_id (notes_tbl db)) \<longrightarrow> distinct (map notes_id (notes_tbl db')))"
  using assms
proof (cases rule: handle_step)
  case (kept g)
  have "map (\<lambda>r. (notes_id r, created_at r)) (notes_tbl db') =
        map (\<lambda>r. (notes_id r, created_at r)) (notes_tbl db)"
    by (simp add: kept(1) kept(2))
  moreover have "map notes_id (notes_tbl db') = map notes_id (notes_tbl db)"
    by (simp add: kept(1) kept(2))
  ultimately show ?thesis by simp
next
  case (inserted row)
  then show ?thesis
    by (simp add: subseq_map subseq_insort_key distinct_map_insort_key)
qed

lemma run_stamps:
  assumes "run a rqs db = (resps, db')"
  shows "subseq (map (\<lambda>r. (notes_id r, created_at r)) (notes_tbl db))
           (map (\<lambda>r. (notes_id r, created_at r)) (notes_tbl db')) \<and>
         (distinct (map notes_id (notes_tbl db)) \<longrightarrow> distinct (map notes_id (notes_tbl db')))"
  using assms
proof (induction rqs arbitrary: db resps)
  case Nil
  then show ?case by simp
next
  case (Cons rq rqs)
  obtain resp dbs where step: "handle a rq db = (resp, dbs)" by (cases "handle a rq db")
  from Cons.prems step obtain rest where more: "run a rqs dbs = (rest, db')"
    by (auto split: prod.splits)
  from handle_stamps[OF step] Cons.IH[OF more] show ?case
    by (auto intro: subseq_order.order_trans)
qed

text \<open>
  C5, as the code has it. Through any requests every stored note keeps its id and its
  \<^verbatim>\<open>created_at\<close>, in the order of the table, and the ids stay distinct. A partial update
  that answers success has selected a row, and sets \<^verbatim>\<open>updated_at\<close> to the time of the
  request in each row it selected and changes no other row. A soft-delete leaves every
  \<^verbatim>\<open>updated_at\<close> as it was: it stamps \<^verbatim>\<open>deleted_at\<close> only.
\<close>

theorem timestamps:
  "(run a rqs db = (resps, db') \<longrightarrow>
      subseq (map (\<lambda>r. (notes_id r, created_at r)) (notes_tbl db))
        (map (\<lambda>r. (notes_id r, created_at r)) (notes_tbl db')) \<and>
      (distinct (map notes_id (notes_tbl db)) \<longrightarrow> distinct (map notes_id (notes_tbl db')))) \<and>
   (patch_notes a t ident body userId db = ((200, m), db2) \<longrightarrow>
      (\<exists>r \<in> set (notes_tbl db). a ident = Some (notes_id r) \<and>
          (\<exists>u. userId = Fin u \<and> user_id r = SqlInt u) \<and> deleted_at r = SqlNull) \<and>
      list_all2 (\<lambda>r r'. if a ident = Some (notes_id r) \<and>
            (\<exists>u. userId = Fin u \<and> user_id r = SqlInt u) \<and> deleted_at r = SqlNull
          then updated_at r' = SqlText t else r' = r) (notes_tbl db) (notes_tbl db2)) \<and>
   (delete_notes a t ident userId db = (resp, db3) \<longrightarrow>
      list_all2 (\<lambda>r r'. updated_at r' = updated_at r) (notes_tbl db) (notes_tbl db3))"
proof (intro conjI impI)
  assume "patch_notes a t ident body userId db = ((200, m), db2)"
  then show "\<exists>r \<in> set (notes_tbl db). a ident = Some (notes_id r) \<and>
          (\<exists>u. userId = Fin u \<and> user_id r = SqlInt u) \<and> deleted_at r = SqlNull"
    by (cases rule: patch_notes_cases) (auto simp: patch_where_iff)
next
  assume "patch_notes a t ident body userId db = ((200, m), db2)"
  then show "list_all2 (\<lambda>r r'. if a ident = Some (notes_id r) \<and>
            (\<exists>u. userId = Fin u \<and> user_id r = SqlInt u) \<and> deleted_at r = SqlNull
          then updated_at r' = SqlText t else r' = r) (notes_tbl db) (notes_tbl db2)"
    by (cases rule: patch_notes_cases)
       (auto simp: patch_where_iff patch_fields_apply list_all2_map2 list_all2_same)
next
  assume "delete_notes a t ident userId db = (resp, db3)"
  then show "list_all2 (\<lambda>r r'. updated_at r' = updated_at r) (notes_tbl db) (notes_tbl db3)"
    by (cases rule: delete_notes_cases) (auto simp: list_all2_map2 list_all2_same)
qed (use run_stamps in blast)+

theorem timestamps_witness:
  "subseq (map (\<lambda>r. (notes_id r, created_at r)) (notes_tbl db_one))
      (map (\<lambda>r. (notes_id r, created_at r)) (notes_tbl db_one)) \<and>
   list_all2 (\<lambda>r r'. updated_at r' = SqlText ''t1'') [note1]
      [note1\<lparr>title := SqlText ''X'', updated_at := SqlText ''t1''\<rparr>] \<and>
   list_all2 (\<lambda>r r'. updated_at r' = updated_at r) [note1]
      [note1\<lparr>deleted_at := SqlText ''t1''\<rparr>]"
proof -
  have r: "run decimal [GetNotes (Some ''1'')] db_one = ([(200, Rows [note1])], db_one)"
    by (simp add: userFromHeader_def parseInt_1 get_notes_def select_notes_def sql_eq_def
        db_one_def note1_def)
  have p: "patch_notes decimal ''t1'' ''1'' (no_fields\<lparr>p_title := Str ''X''\<rparr>) (Fin 1) db_one =
      ((200, Message ''Note updated successfully.''),
       db_one\<lparr>notes_tbl := [note1\<lparr>title := SqlText ''X'', updated_at := SqlText ''t1''\<rparr>]\<rparr>)"
    by (simp add: patch_notes_def update_notes_def patch_where_def sql_eq_def decimal_1
        patch_fields_def no_fields_def db_one_def note1_def)
  have d: "delete_notes decimal ''t1'' ''1'' (Fin 1) db_one =
      ((200, Message ''Note deleted successfully.''),
       db_one\<lparr>notes_tbl := [note1\<lparr>deleted_at := SqlText ''t1''\<rparr>]\<rparr>)"
    by (simp add: delete_notes_def update_notes_def delete_where_def sql_eq_def decimal_1
        db_one_def note1_def)
  have sel: "decimal ''1'' = Some (notes_id note1) \<and> user_id note1 = SqlInt 1 \<and>
      deleted_at note1 = SqlNull"
    by (simp add: decimal_1 note1_def)
  from timestamps [where a = decimal and rqs = "[GetNotes (Some ''1'')]" and db = db_one
      and resps = "[(200, Rows [note1])]" and db' = db_one and t = "''t1''" and ident = "''1''"
      and body = "no_fields\<lparr>p_title := Str ''X''\<rparr>" and userId = "Fin 1"
      and m = "Message ''Note updated successfully.''"
      and ?db2.0 = "db_one\<lparr>notes_tbl := [note1\<lparr>title := SqlText ''X'', updated_at := SqlText ''t1''\<rparr>]\<rparr>"
      and resp = "(200, Message ''Note deleted successfully.'')"
      and ?db3.0 = "db_one\<lparr>notes_tbl := [note1\<lparr>deleted_at := SqlText ''t1''\<rparr>]\<rparr>"]
    r p d sel
  show ?thesis by (simp add: db_one_def)
qed

text \<open>
  C5 as stated fails: the soft-delete at \<open>t1\<close> of the note 1 by its owner answers
  success, and the note's \<^verbatim>\<open>updated_at\<close> is still \<open>t0\<close>.
\<close>

theorem timestamps_counterexample:
  "delete_notes decimal ''t1'' ''1'' (Fin 1) db_one =
     ((200, Message ''Note deleted successfully.''),
      db_one\<lparr>notes_tbl := [note1\<lparr>deleted_at := SqlText ''t1''\<rparr>]\<rparr>) \<and>
   updated_at (note1\<lparr>deleted_at := SqlText ''t1''\<rparr>) = SqlText ''t0'' \<and>
   updated_at (note1\<lparr>deleted_at := SqlText ''t1''\<rparr>) \<noteq> SqlText ''t1''"
  by (simp add: delete_notes_def update_notes_def delete_where_def sql_eq_def decimal_1
      db_one_def note1_def)

section \<open>Creation\<close>




text \<open>
  What the columns keep: a numeric title as its decimal text, a \<^verbatim>\<open>createdAt\<close> that
  spells an integer as that integer; and an id beyond 64 bits is refused.
\<close>

lemma post_notes_cells:
  "post_notes decimal 42 ''t0'' (body_TC\<lparr>b_title := Num 5, b_createdAt := Str ''2024''\<rparr>)
      (Fin 1) db_empty =
     ((201, NewNote \<lparr>cn_id = 42, cn_title = Num 5, cn_content = Str ''C'',
         cn_created_at = Str ''2024'', cn_updated_at = Str ''2024'', cn_is_hidden = Bool False,
         cn_user_id = Fin 1\<rparr>),
      \<lparr>users_tbl = [alice],
       notes_tbl = [note42\<lparr>title := SqlText ''5'', created_at := SqlInt 2024,
                          updated_at := SqlInt 2024\<rparr>]\<rparr>)"
proof -
  have "decimal ''2024'' = Some 2024"
    by (simp add: decimal_def is_digit_def digits_value_def)
  then show ?thesis
    by (simp add: post_notes_def insert_notes_def default_to_def stamp_cell_def int64_def
        int32_def decimal_text_def body_TC_def no_body_def db_empty_def note42_def Let_def)
qed

lemma post_notes_key_range:
  "post_notes a date_now iso_now (body_TC\<lparr>b_id := Num (2 ^ 63)\<rparr>) userId db =
     ((500, DbError DatatypeMismatch), db)"
  by (simp add: post_notes_def insert_notes_def default_to_def int64_def body_TC_def
      no_body_def Let_def)

section \<open>The flag \<open>is_hidden\<close>\<close>

text \<open>
  C8. Rewriting the \<^verbatim>\<open>is_hidden\<close> of the stored notes in any way rewrites it in the rows
  \<^verbatim>\<open>GET /notes\<close> answers with and neither adds nor removes a row; and a stored note of
  the caller whose \<^verbatim>\<open>deleted_at\<close> is NULL is among the rows, whatever its \<^verbatim>\<open>is_hidden\<close>.
\<close>

theorem is_hidden_advisory:
  "get_notes userId (db\<lparr>notes_tbl := map (\<lambda>r. r\<lparr>is_hidden := f r\<rparr>) (notes_tbl db)\<rparr>) =
     ((200, Rows (map (\<lambda>r. r\<lparr>is_hidden := f r\<rparr>)
                    (select_notes (bind_number userId) (notes_tbl db)))),
      db\<lparr>notes_tbl := map (\<lambda>r. r\<lparr>is_hidden := f r\<rparr>) (notes_tbl db)\<rparr>) \<and>
   (r \<in> set (notes_tbl db) \<and> user_id r = SqlInt u \<and> deleted_at r = SqlNull \<longrightarrow>
      (\<exists>rows. get_notes (Fin u) db = ((200, Rows rows), db) \<and> r \<in> set rows))"
  by (auto simp: get_notes_def select_notes_def sql_eq_def filter_map comp_def)

theorem is_hidden_advisory_witness:
  "get_notes (Fin 1) (db_one\<lparr>notes_tbl := [note1\<lparr>is_hidden := SqlInt 1\<rparr>]\<rparr>) =
     ((200, Rows [note1\<lparr>is_hidden := SqlInt 1\<rparr>]),
      db_one\<lparr>notes_tbl := [note1\<lparr>is_hidden := SqlInt 1\<rparr>]\<rparr>) \<and>
   (\<exists>rows. get_notes (Fin 1) db_one = ((200, Rows rows), db_one) \<and> note1 \<in> set rows)"
proof -
  have "note1 \<in> set (notes_tbl db_one) \<and> user_id note1 = SqlInt 1 \<and> deleted_at note1 = SqlNull"
    by (simp add: db_one_def note1_def)
  moreover have "select_notes (SqlInt 1) [note1] = [note1]"
    by (simp add: select_notes_def sql_eq_def note1_def)
  ultimately show ?thesis
    using is_hidden_advisory [where userId = "Fin 1" and db = db_one and f = "\<lambda>r. SqlInt 1"
        and r = note1 and u = 1]
    by (simp add: db_one_def)
qed

section \<open>Empty text\<close>

text \<open>
  C9. For a stored note of the caller whose \<^verbatim>\<open>deleted_at\<close> is NULL, a patch whose only
  field is the empty title (or the empty content) answers success and the row then
  holds the empty text; \<^verbatim>\<open>POST /notes\<close> with an empty title (or content) answers the
  validation error and stores nothing.
\<close>

theorem patch_stores_empty_text:
  assumes "r \<in> set (notes_tbl db)" and "a ident = Some (notes_id r)"
    and "user_id r = SqlInt u" and "deleted_at r = SqlNull"
  shows "(\<exists>db'. patch_notes a t ident (no_fields\<lparr>p_title := Str ''''\<rparr>) (Fin u) db =
            ((200, Message ''Note updated successfully.''), db') \<and>
          r\<lparr>title := SqlText '''', updated_at := SqlText t\<rparr> \<in> set (notes_tbl db')) \<and>
     (\<exists>db'. patch_notes a t ident (no_fields\<lparr>p_content := Str ''''\<rparr>) (Fin u) db =
            ((200, Message ''Note updated successfully.''), db') \<and>
          r\<lparr>content := SqlText '''', updated_at := SqlText t\<rparr> \<in> set (notes_tbl db')) \<and>
     post_notes a date_now iso_now (body\<lparr>b_title := Str ''''\<rparr>) userId db =
       ((400, Error ''Title and content are required.''), db) \<and>
     post_notes a date_now iso_now (body\<lparr>b_content := Str ''''\<rparr>) userId db =
       ((400, Error ''Title and content are required.''), db)"
proof -
  from assms have hit: "\<exists>r \<in> set (notes_tbl db). patch_where a ident (Fin u) r"
    by (auto simp: patch_where_iff)
  have sel: "patch_where a ident (Fin u) r" using assms by (simp add: patch_where_iff)
  have one: "\<exists>db'. patch_notes a t ident body' (Fin u) db =
            ((200, Message ''Note updated successfully.''), db') \<and>
          fold set_column (patch_fields a body' t) r \<in> set (notes_tbl db')"
    if "body' = no_fields\<lparr>p_title := Str ''''\<rparr> \<or> body' = no_fields\<lparr>p_content := Str ''''\<rparr>"
    for body'
  proof -
    obtain resp db' where run: "patch_notes a t ident body' (Fin u) db = (resp, db')"
      by (cases "patch_notes a t ident body' (Fin u) db")
    from run show ?thesis
    proof (cases rule: patch_notes_cases)
      case invalid
      with that show ?thesis by (auto simp: no_fields_def)
    next
      case failed
      with that show ?thesis by (auto simp: patch_fields_def no_fields_def)
    next
      case missed
      with hit show ?thesis by simp
    next
      case changed
      with assms(1) sel run show ?thesis by force
    qed
  qed
  from one[of "no_fields\<lparr>p_title := Str ''''\<rparr>"] one[of "no_fields\<lparr>p_content := Str ''''\<rparr>"]
  show ?thesis
    by (simp add: patch_fields_apply no_fields_def post_notes_def Let_def)
qed

theorem patch_stores_empty_text_witness:
  "patch_notes decimal ''t1'' ''1'' (no_fields\<lparr>p_title := Str ''''\<rparr>) (Fin 1) db_one =
     ((200, Message ''Note updated successfully.''),
      db_one\<lparr>notes_tbl := [note1\<lparr>title := SqlText '''', updated_at := SqlText ''t1''\<rparr>]\<rparr>) \<and>
   post_notes decimal 42 ''t0'' (body_TC\<lparr>b_title := Str ''''\<rparr>) (Fin 1) db_one =
     ((400, Error ''Title and content are required.''), db_one)"
proof -
  have 1: "note1 \<in> set (notes_tbl db_one)" by (simp add: db_one_def)
  have 2: "decimal ''1'' = Some (notes_id note1)" by (simp add: decimal_1 note1_def)
  have 3: "user_id note1 = SqlInt 1" by (simp add: note1_def)
  have 4: "deleted_at note1 = SqlNull" by (simp add: note1_def)
  have p: "patch_notes decimal ''t1'' ''1'' (no_fields\<lparr>p_title := Str ''''\<rparr>) (Fin 1) db_one =
     ((200, Message ''Note updated successfully.''),
      db_one\<lparr>notes_tbl := [note1\<lparr>title := SqlText '''', updated_at := SqlText ''t1''\<rparr>]\<rparr>)"
    by (simp add: patch_notes_def update_notes_def patch_where_def sql_eq_def decimal_1
        patch_fields_def no_fields_def db_one_def note1_def)
  from patch_stores_empty_text [where a = decimal and ident = "''1''" and r = note1
      and db = db_one and u = 1 and t = "''t1''" and date_now = 42 and iso_now = "''t0''"
      and body = body_TC and userId = "Fin 1", OF 1 2 3 4] p
  show ?thesis by simp
qed

section \<open>Registration\<close>

lemma find_insort_key_new:
  assumes "P x" and "\<forall>y \<in> set xs. \<not> P y"
  shows "find P (insort_key f x xs) = Some x"
  using assms by (induction xs) auto

lemma find_Some_first:
  "find P xs = Some x \<Longrightarrow> x \<in> set xs \<and> P x"
  by (induction xs) (auto split: if_splits)

lemma find_hit: "\<exists>y \<in> set xs. P y \<Longrightarrow> \<exists>x. find P xs = Some x"
  by (induction xs) auto

lemma truthy_bound: "\<not> falsy v \<Longrightarrow> bind_value v \<noteq> SqlNull"
  by (cases v) auto

text \<open>
  C4. For a username that is not falsy, two calls of \<^verbatim>\<open>POST /users\<close> in a row answer
  with the same user id: the second answers 200 with the stored row of that name and
  leaves the database as the first call left it. When no stored row has the name, the
  first call answers 201 with a new id and inserts exactly the row the second call
  then returns.
\<close>

theorem register_twice:
  assumes "\<not> falsy name"
  shows "\<exists>k row. (fst (post_users name db) = (201, NewUser k name) \<or>
                   (\<exists>row0. fst (post_users name db) = (200, Row (Some row0)) \<and> users_id row0 = k)) \<and>
     post_users name (snd (post_users name db)) =
       ((200, Row (Some row)), snd (post_users name db)) \<and>
     users_id row = k \<and> username row = bind_value name \<and>
     row \<in> set (users_tbl (snd (post_users name db))) \<and>
     ((\<forall>r \<in> set (users_tbl db). username r \<noteq> bind_value name) \<longrightarrow>
        fst (post_users name db) = (201, NewUser k name) \<and>
        k \<notin> users_id ` set (users_tbl db) \<and>
        users_tbl (snd (post_users name db)) = insort_key users_id row (users_tbl db) \<and>
        notes_tbl (snd (post_users name db)) = notes_tbl db)"
proof -
  let ?v = "bind_value name"
  let ?P = "\<lambda>r. sql_eq (username r) ?v"
  from assms have v: "?v \<noteq> SqlNull" by (rule truthy_bound)
  then have P: "?P r = (username r = ?v)" for r by (auto simp: sql_eq_def)
  show ?thesis
  proof (cases "\<exists>r \<in> set (users_tbl db). ?P r")
    case True
    then obtain row where row: "find ?P (users_tbl db) = Some row"
      using find_hit[of "users_tbl db" ?P] by blast
    from True assms have 1: "post_users name db = ((200, Row (Some row)), db)"
      by (simp add: post_users_def insert_users_def select_users_def row)
    from find_Some_first[OF row] have "row \<in> set (users_tbl db)" "username row = ?v"
      by (simp_all add: P)
    with 1 True show ?thesis
      by (intro exI[of _ "users_id row"] exI[of _ row]) (auto simp: P)
  next
    case False
    let ?k = "next_rowid (map users_id (users_tbl db))"
    let ?row = "\<lparr>users_id = ?k, username = ?v, password = SqlNull\<rparr>"
    let ?db = "db\<lparr>users_tbl := insort_key users_id ?row (users_tbl db)\<rparr>"
    from False assms have 1: "post_users name db = ((201, NewUser ?k name), ?db)"
      by (simp add: post_users_def insert_users_def Let_def)
    have hit: "\<exists>r \<in> set (users_tbl ?db). ?P r"
      by (simp add: set_insort_key P)
    have "find ?P (users_tbl ?db) = Some ?row"
      using False by (simp add: find_insort_key_new P)
    with hit assms have 2: "post_users name ?db = ((200, Row (Some ?row)), ?db)"
      by (simp add: post_users_def insert_users_def select_users_def)
    have fresh: "?k \<notin> users_id ` set (users_tbl db)"
    proof (cases "users_tbl db = []")
      case True
      then show ?thesis by simp
    next
      case ne: False
      have "x \<le> Max (users_id ` set (users_tbl db))" if "x \<in> users_id ` set (users_tbl db)" for x
        using that by (intro Max_ge) auto
      then have "x < ?k" if "x \<in> users_id ` set (users_tbl db)" for x
        using that ne by (fastforce simp: next_rowid_def)
      then show ?thesis by blast
    qed
    from 1 2 fresh show ?thesis
      by (intro exI[of _ ?k] exI[of _ ?row]) (simp add: set_insort_key)
  qed
qed

theorem register_twice_witness:
  "post_users (Str ''bob'') db_one =
     ((201, NewUser 2 (Str ''bob'')),
      db_one\<lparr>users_tbl := [alice, \<lparr>users_id = 2, username = SqlText ''bob'', password = SqlNull\<rparr>]\<rparr>) \<and>
   (\<exists>row. post_users (Str ''bob'')
        (db_one\<lparr>users_tbl := [alice, \<lparr>users_id = 2, username = SqlText ''bob'', password = SqlNull\<rparr>]\<rparr>) =
      ((200, Row (Some row)),
       db_one\<lparr>users_tbl := [alice, \<lparr>users_id = 2, username = SqlText ''bob'', password = SqlNull\<rparr>]\<rparr>) \<and>
      users_id row = 2)"
proof -
  have given: "\<not> falsy (Str ''bob'')" by simp
  have first: "post_users (Str ''bob'') db_one =
     ((201, NewUser 2 (Str ''bob'')),
      db_one\<lparr>users_tbl := [alice, \<lparr>users_id = 2, username = SqlText ''bob'', password = SqlNull\<rparr>]\<rparr>)"
    by (simp add: post_users_def insert_users_def sql_eq_def next_rowid_def db_one_def alice_def)
  from register_twice [OF given, of db_one] first show ?thesis by auto
qed

section \<open>The identity header\<close>






text \<open>A sign before the digits is read too.\<close>

lemma parseInt_signed: "parseInt ''-7'' = Fin (- 7)"
  by (simp add: parseInt_def is_space_def is_digit_def digits_value_def to_double_exact)




end
